theory Spec2Isabelle
  imports Main "HOL-Library.Sublist" "HOL-Library.Word"
begin

section \<open>Path matching of navigation items (Nav/components/Item/Item.tsx)\<close>

subsection \<open>Strings\<close>

text \<open>
  A JavaScript string is a sequence of UTF-16 code units; \<^verbatim>\<open>length\<close>, \<^verbatim>\<open>split\<close>,
  \<^verbatim>\<open>startsWith\<close>, \<^verbatim>\<open>endsWith\<close> and \<^verbatim>\<open>===\<close> all work on code units. A string is
  modelled as the list of its code units. \<open>js\<close> turns a HOL string literal (ASCII)
  into such a list.
\<close>

type_synonym code_unit = "16 word"
type_synonym jsstring = "code_unit list"

definition cu :: "char \<Rightarrow> code_unit" where
  "cu c = of_char c"

definition js :: "string \<Rightarrow> jsstring" where
  "js s = map cu s"

text \<open>
  \<^verbatim>\<open>s.split(sep)\<close> for a separator of one code unit: the pieces between the
  occurrences of the separator, in order. The result is never empty
  (\<^verbatim>\<open>"".split("?")\<close> is \<^verbatim>\<open>[""]\<close>).
\<close>

fun split_js :: "jsstring \<Rightarrow> code_unit \<Rightarrow> jsstring list" where
  "split_js [] sep = [[]]"
| "split_js (c # cs) sep =
     (if c = sep then [] # split_js cs sep
      else (case split_js cs sep of
              [] \<Rightarrow> [[c]]
            | piece # pieces \<Rightarrow> (c # piece) # pieces))"

text \<open>
  \<^verbatim>\<open>xs[0]\<close>: the first element of an array, \<^verbatim>\<open>undefined\<close> (\<open>None\<close>) when the
  array is empty.
\<close>

definition first_js :: "'a list \<Rightarrow> 'a option" where
  "first_js xs = (case xs of [] \<Rightarrow> None | x # _ \<Rightarrow> Some x)"

text \<open>
  \<^verbatim>\<open>s.split(sep)[0]\<close>: the part of \<open>s\<close> before the first occurrence of the
  separator, all of \<open>s\<close> when there is none (lemma \<open>split0_first\<close> relates it
  to \<open>split_js\<close>).
\<close>

fun split0 :: "jsstring \<Rightarrow> code_unit \<Rightarrow> jsstring" where
  "split0 [] sep = []"
| "split0 (c # cs) sep = (if c = sep then [] else c # split0 cs sep)"

text \<open>\<^verbatim>\<open>s.startsWith(t)\<close> and \<^verbatim>\<open>s.endsWith(t)\<close>\<close>

definition startsWith :: "jsstring \<Rightarrow> jsstring \<Rightarrow> bool" where
  "startsWith s t = prefix t s"

definition endsWith :: "jsstring \<Rightarrow> jsstring \<Rightarrow> bool" where
  "endsWith s t = suffix t s"

subsection \<open>Data model\<close>

text \<open>
  \<^verbatim>\<open>interface ItemURLDetails\<close>: every field is optional, \<open>None\<close> is an absent
  (\<^verbatim>\<open>undefined\<close>) field.
\<close>

record ItemURLDetails =
  url :: "jsstring option"
  matches :: "bool option"
  exactMatch :: "bool option"
  matchPaths :: "jsstring list option"
  excludePaths :: "jsstring list option"

text \<open>\<^verbatim>\<open>enum MatchState\<close>\<close>

datatype MatchState = MatchForced | MatchUrl | MatchPaths | Excluded | NoMatch

subsection \<open>Normalisation and comparison of paths\<close>

text \<open>
  \<^verbatim>\<open>
  function normalizePathname(pathname: string) {
    const barePathname = pathname.split('?')[0].split('#')[0];
    return barePathname.endsWith('/') ? barePathname : `${barePathname}/`;
  }
  \<close>
\<close>

definition normalizePathname :: "jsstring \<Rightarrow> jsstring" where
  "normalizePathname pathname =
     (let barePathname = split0 (split0 pathname (cu CHR ''?'')) (cu CHR ''#'')
      in if endsWith barePathname (js ''/'') then barePathname else barePathname @ js ''/'')"

definition safeEqual :: "jsstring \<Rightarrow> jsstring \<Rightarrow> bool" where
  "safeEqual location path = (normalizePathname location = normalizePathname path)"

definition safeStartsWith :: "jsstring \<Rightarrow> jsstring \<Rightarrow> bool" where
  "safeStartsWith location path =
     startsWith (normalizePathname location) (normalizePathname path)"

subsection \<open>Classification of one item\<close>

text \<open>
  \<^verbatim>\<open>arr.some(p)\<close> on an optional array, as in
  \<^verbatim>\<open>excludePaths && excludePaths.some(...)\<close>: an absent array makes the
  conjunction falsy, an array (even an empty one) is truthy.
\<close>

definition some_opt :: "'a list option \<Rightarrow> ('a \<Rightarrow> bool) \<Rightarrow> bool" where
  "some_opt arr p = (case arr of None \<Rightarrow> False | Some xs \<Rightarrow> list_ex p xs)"

text \<open>
  \<^verbatim>\<open>
  function matchStateForItem({url, matches, exactMatch, matchPaths, excludePaths}, location) {
    if (url == null) { return MatchState.NoMatch; }
    if (matches) { return MatchState.MatchForced; }
    if (matches === false ||
        (excludePaths && excludePaths.some((path) => safeStartsWith(location, path)))) {
      return MatchState.Excluded;
    }
    if (matchPaths && matchPaths.some((path) => safeStartsWith(location, path))) {
      return MatchState.MatchPaths;
    }
    const matchesUrl = exactMatch ? safeEqual(location, url) : safeStartsWith(location, url);
    return matchesUrl ? MatchState.MatchUrl : MatchState.NoMatch;
  }
  \<close>
  An optional boolean is truthy only when it is \<^verbatim>\<open>true\<close>. The parameter is any
  object with the fields of \<^verbatim>\<open>ItemURLDetails\<close> (a \<^verbatim>\<open>Props\<close> as well), hence the
  record scheme.
\<close>

definition matchStateForItem :: "'a ItemURLDetails_scheme \<Rightarrow> jsstring \<Rightarrow> MatchState" where
  "matchStateForItem item location =
     (case url item of
        None \<Rightarrow> NoMatch
      | Some u \<Rightarrow>
          if matches item = Some True then MatchForced
          else if matches item = Some False \<or>
                  some_opt (excludePaths item) (\<lambda>path. safeStartsWith location path)
          then Excluded
          else if some_opt (matchPaths item) (\<lambda>path. safeStartsWith location path)
          then MatchPaths
          else
            let matchesUrl =
                  (if exactMatch item = Some True then safeEqual location u
                   else safeStartsWith location u)
            in if matchesUrl then MatchUrl else NoMatch)"

text \<open>
  The test written three times in the source:
  \<^verbatim>\<open>s === MatchState.MatchForced || s === MatchState.MatchUrl || s === MatchState.MatchPaths\<close>
\<close>

definition isMatch :: "MatchState \<Rightarrow> bool" where
  "isMatch s = (s = MatchForced \<or> s = MatchUrl \<or> s = MatchPaths)"

subsection \<open>Sub-items and the active item\<close>

text \<open>
  \<^verbatim>\<open>interface SubNavItem extends ItemURLDetails\<close> makes \<^verbatim>\<open>url\<close> a required string and
  adds a label; \<open>details\<close> is the view of a sub-item as an \<^verbatim>\<open>ItemURLDetails\<close> that
  \<^verbatim>\<open>matchStateForItem(item, location)\<close> receives. \<^verbatim>\<open>interface Props\<close> adds the
  optional \<^verbatim>\<open>selected\<close> override and the optional array of sub-items (the fields
  that only feed the markup are left out).
\<close>

record SubNavItem =
  sub_url :: jsstring
  sub_label :: jsstring
  sub_matches :: "bool option"
  sub_exactMatch :: "bool option"
  sub_matchPaths :: "jsstring list option"
  sub_excludePaths :: "jsstring list option"

definition details :: "SubNavItem \<Rightarrow> ItemURLDetails" where
  "details item =
     \<lparr>url = Some (sub_url item), matches = sub_matches item,
      exactMatch = sub_exactMatch item, matchPaths = sub_matchPaths item,
      excludePaths = sub_excludePaths item\<rparr>"

record Props = ItemURLDetails +
  label :: jsstring
  selected :: "bool option"
  subNavItems :: "SubNavItem list option"

text \<open>
  \<^verbatim>\<open>
  subNavItems.filter((item) => {
    const subMatchState = matchStateForItem(item, location);
    return subMatchState === MatchState.MatchForced || ... MatchUrl || ... MatchPaths;
  })
  \<close>
\<close>

definition matchingSubNavItems :: "SubNavItem list \<Rightarrow> jsstring \<Rightarrow> SubNavItem list" where
  "matchingSubNavItems items location =
     filter (\<lambda>item. isMatch (matchStateForItem (details item) location)) items"

text \<open>
  \<^verbatim>\<open>
  export function isNavItemActive(navItem: Props, currentPath: string) {
    const matchState = matchStateForItem(navItem, currentPath);
    const matchingSubNavItems = navItem.subNavItems && navItem.subNavItems.filter(...);
    const childIsActive = matchingSubNavItems && matchingSubNavItems.length > 0;
    const selected = matchState === MatchForced || ... MatchUrl || ... MatchPaths;
    return selected || childIsActive;
  }
  \<close>
  Without sub-items \<^verbatim>\<open>childIsActive\<close> is \<^verbatim>\<open>undefined\<close>, and so is the result when
  the item itself does not match: the result is a \<open>bool option\<close>, \<open>None\<close> for
  \<^verbatim>\<open>undefined\<close>.
\<close>

definition isNavItemActive :: "Props \<Rightarrow> jsstring \<Rightarrow> bool option" where
  "isNavItemActive navItem currentPath =
     (let matchState = matchStateForItem navItem currentPath;
          matching = map_option (\<lambda>items. matchingSubNavItems items currentPath)
                       (subNavItems navItem);
          childIsActive = map_option (\<lambda>ms. length ms > 0) matching;
          selected = isMatch matchState
      in if selected then Some True else childIsActive)"

subsection \<open>The longest matching sub-item\<close>

text \<open>
  \<^verbatim>\<open>arr.sort(compare)\<close>: \<^verbatim>\<open>Array.prototype.sort\<close> is stable (ECMAScript 2019 on):
  elements that compare equal keep their order. It is modelled by an insertion
  sort that puts an element before the first one it does not come after.
\<close>

fun insort_js :: "('a \<Rightarrow> 'a \<Rightarrow> int) \<Rightarrow> 'a \<Rightarrow> 'a list \<Rightarrow> 'a list" where
  "insort_js compare x [] = [x]"
| "insort_js compare x (y # ys) =
     (if compare x y \<le> 0 then x # y # ys else y # insort_js compare x ys)"

definition sort_js :: "('a \<Rightarrow> 'a \<Rightarrow> int) \<Rightarrow> 'a list \<Rightarrow> 'a list" where
  "sort_js compare xs = foldr (insort_js compare) xs []"

text \<open>
  \<^verbatim>\<open>({url: firstUrl}, {url: secondUrl}) => secondUrl.length - firstUrl.length\<close>
\<close>

definition compareUrlLength :: "SubNavItem \<Rightarrow> SubNavItem \<Rightarrow> int" where
  "compareUrlLength first second =
     int (length (sub_url second)) - int (length (sub_url first))"

text \<open>
  \<^verbatim>\<open>const longestMatch = matchingSubNavItems.sort(...)[0];\<close>
\<close>

definition longestMatch :: "SubNavItem list \<Rightarrow> SubNavItem option" where
  "longestMatch matching = first_js (sort_js compareUrlLength matching)"

text \<open>
  The part of \<^verbatim>\<open>render\<close> that decides which sub-item is the longest match, for
  the props, the \<^verbatim>\<open>expanded\<close> flag of the state and the location of the context.
  An item without \<^verbatim>\<open>url\<close> is rendered as a button and has no sub-navigation;
  otherwise \<^verbatim>\<open>longestMatch\<close> is computed when there are sub-items and the item is
  shown expanded. \<open>None\<close> is "no sub-item is the longest match".
\<close>

definition render_longestMatch :: "Props \<Rightarrow> bool \<Rightarrow> jsstring \<Rightarrow> SubNavItem option" where
  "render_longestMatch props expanded location =
     (case url props of
        None \<Rightarrow> None
      | Some _ \<Rightarrow>
          let subs = (case subNavItems props of None \<Rightarrow> [] | Some items \<Rightarrow> items);
              matchState = matchStateForItem props location;
              matching = matchingSubNavItems subs location;
              childIsActive = (length matching > 0);
              isSelected = (case selected props of
                              None \<Rightarrow> isMatch matchState
                            | Some selectedOverride \<Rightarrow> selectedOverride);
              showExpanded = (isSelected \<or> expanded \<or> childIsActive)
          in if length subs > 0 \<and> showExpanded then longestMatch matching else None)"

text \<open>
  The specification calls the computation of \<^verbatim>\<open>longestMatch\<close> from the sub-items
  and the location \<^verbatim>\<open>selectBestMatch(rules, location)\<close>.
\<close>

definition selectBestMatch :: "SubNavItem list \<Rightarrow> jsstring \<Rightarrow> SubNavItem option" where
  "selectBestMatch rules location = longestMatch (matchingSubNavItems rules location)"

subsection \<open>The classification procedure as the specification words it\<close>

text \<open>
  The specification describes \<^verbatim>\<open>classify(rule, location)\<close> as five steps tried in
  strict order, the first applicable one giving the result: a list of guarded
  results with a default. A missing sequence of paths counts as an empty one, and
  "starts with" compares normalised paths.
\<close>

definition paths_of :: "jsstring list option \<Rightarrow> jsstring list" where
  "paths_of paths = (case paths of None \<Rightarrow> [] | Some ps \<Rightarrow> ps)"

definition startsWithAny :: "jsstring \<Rightarrow> jsstring list option \<Rightarrow> bool" where
  "startsWithAny location paths =
     (\<exists>p \<in> set (paths_of paths). prefix (normalizePathname p) (normalizePathname location))"

definition urlMatches :: "'a ItemURLDetails_scheme \<Rightarrow> jsstring \<Rightarrow> bool" where
  "urlMatches rule location =
     (case url rule of
        None \<Rightarrow> False
      | Some u \<Rightarrow>
          if exactMatch rule = Some True
          then normalizePathname location = normalizePathname u
          else prefix (normalizePathname u) (normalizePathname location))"

fun first_applicable :: "(bool \<times> MatchState) list \<Rightarrow> MatchState \<Rightarrow> MatchState" where
  "first_applicable [] otherwise = otherwise"
| "first_applicable ((applies, result) # steps) otherwise =
     (if applies then result else first_applicable steps otherwise)"

definition classify_spec :: "'a ItemURLDetails_scheme \<Rightarrow> jsstring \<Rightarrow> MatchState" where
  "classify_spec rule location =
     first_applicable
       [(url rule = None, NoMatch),
        (matches rule = Some True, MatchForced),
        (matches rule = Some False \<or> startsWithAny location (excludePaths rule), Excluded),
        (startsWithAny location (matchPaths rule), MatchPaths),
        (urlMatches rule location, MatchUrl)]
       NoMatch"

section \<open>Properties\<close>

subsection \<open>Strings and normalisation\<close>

lemma split_js_not_Nil: "split_js s sep \<noteq> []"
  by (induction s) (auto split: list.splits)

text \<open>The first piece of a split is what \<open>split0\<close> computes.\<close>

lemma split0_first: "first_js (split_js s sep) = Some (split0 s sep)"
  by (induction s) (auto simp: first_js_def split: list.splits)

lemma sep_notin_split0: "sep \<notin> set (split0 s sep)"
  by (induction s) auto

lemma split0_id: "sep \<notin> set s \<Longrightarrow> split0 s sep = s"
  by (induction s) auto

lemma set_split0_subset: "set (split0 s sep) \<subseteq> set s"
  by (induction s) auto

lemma split0_twice_takeWhile:
  "split0 (split0 p a) b = takeWhile (\<lambda>c. c \<noteq> a \<and> c \<noteq> b) p"
  by (induction p) auto

lemma cu_neq:
  "cu CHR ''/'' \<noteq> cu CHR ''?''" "cu CHR ''/'' \<noteq> cu CHR ''#''"
  by (simp_all add: cu_def)

lemma endsWith_single: "endsWith s [c] \<longleftrightarrow> s \<noteq> [] \<and> last s = c"
  by (cases s rule: rev_cases) (auto simp: endsWith_def)

lemma bare_free:
  "cu CHR ''?'' \<notin> set (split0 (split0 p (cu CHR ''?'')) (cu CHR ''#''))"
  "cu CHR ''#'' \<notin> set (split0 (split0 p (cu CHR ''?'')) (cu CHR ''#''))"
  using set_split0_subset sep_notin_split0 by blast+

lemma normalizePathname_free:
  "cu CHR ''?'' \<notin> set (normalizePathname p)"
  "cu CHR ''#'' \<notin> set (normalizePathname p)"
  using bare_free [of p] cu_neq by (auto simp: normalizePathname_def Let_def js_def)

lemma normalizePathname_ends: "endsWith (normalizePathname p) (js ''/'')"
  by (auto simp: normalizePathname_def Let_def endsWith_single js_def)

lemma normalizePathname_idem:
  "normalizePathname (normalizePathname p) = normalizePathname p"
proof -
  have "split0 (split0 (normalizePathname p) (cu CHR ''?'')) (cu CHR ''#'')
        = normalizePathname p"
    by (simp add: split0_id normalizePathname_free)
  then show ?thesis
    using normalizePathname_ends [of p]
    by (subst normalizePathname_def) (simp add: Let_def)
qed

subsection \<open>Sorting\<close>

text \<open>
  \<open>sort_js\<close> with the comparison of \<^verbatim>\<open>render\<close> returns the elements in descending
  order of the length of their \<^verbatim>\<open>url\<close>, and elements of the same length in the
  order they had: it is the stable sort.
\<close>

lemma set_insort_js: "set (insort_js cmp x ys) = insert x (set ys)"
  by (induction ys) auto

lemma length_insort_js: "length (insort_js cmp x ys) = Suc (length ys)"
  by (induction ys) auto

lemma length_sort_js: "length (sort_js cmp xs) = length xs"
  by (induction xs) (auto simp: sort_js_def length_insort_js)

lemma set_sort_js: "set (sort_js cmp xs) = set xs"
  by (induction xs) (auto simp: sort_js_def set_insort_js)

lemma sorted_insort_js:
  "sorted_wrt (\<lambda>a b. length (sub_url b) \<le> length (sub_url a)) ys \<Longrightarrow>
   sorted_wrt (\<lambda>a b. length (sub_url b) \<le> length (sub_url a))
     (insort_js compareUrlLength x ys)"
  by (induction ys) (auto simp: set_insort_js compareUrlLength_def)

lemma sorted_sort_js:
  "sorted_wrt (\<lambda>a b. length (sub_url b) \<le> length (sub_url a))
     (sort_js compareUrlLength xs)"
proof (induction xs)
  case Nil
  then show ?case by (simp add: sort_js_def)
next
  case (Cons x xs)
  then show ?case
    using sorted_insort_js [of "sort_js compareUrlLength xs" x] by (simp add: sort_js_def)
qed

lemma filter_insort_js:
  "filter (\<lambda>z. length (sub_url z) = k) (insort_js compareUrlLength x ys) =
     (if length (sub_url x) = k then x # filter (\<lambda>z. length (sub_url z) = k) ys
      else filter (\<lambda>z. length (sub_url z) = k) ys)"
  by (induction ys) (auto simp: compareUrlLength_def)

lemma sort_js_stable:
  "filter (\<lambda>z. length (sub_url z) = k) (sort_js compareUrlLength xs) =
   filter (\<lambda>z. length (sub_url z) = k) xs"
proof (induction xs)
  case Nil
  then show ?case by (simp add: sort_js_def)
next
  case (Cons x xs)
  have "sort_js compareUrlLength (x # xs) =
        insort_js compareUrlLength x (sort_js compareUrlLength xs)"
    by (simp add: sort_js_def)
  with Cons show ?case by (simp add: filter_insort_js)
qed

lemma longestMatch_Nil: "longestMatch [] = None"
  by (simp add: longestMatch_def sort_js_def first_js_def)

text \<open>
  The first element of the sorted array is the first of the elements of greatest
  length: everything before it in the original order is strictly shorter, nothing
  after it is longer.
\<close>

lemma longestMatch_first_max:
  "ms \<noteq> [] \<Longrightarrow>
   \<exists>pre r post. ms = pre @ r # post \<and> longestMatch ms = Some r \<and>
     (\<forall>x\<in>set pre. length (sub_url x) < length (sub_url r)) \<and>
     (\<forall>x\<in>set post. length (sub_url x) \<le> length (sub_url r))"
proof (induction ms)
  case Nil
  then show ?case by simp
next
  case (Cons m ms)
  show ?case
  proof (cases "ms = []")
    case True
    then have "longestMatch (m # ms) = Some m"
      by (simp add: longestMatch_def sort_js_def first_js_def)
    with True show ?thesis by fastforce
  next
    case False
    with Cons.IH obtain pre r post where
      ms: "ms = pre @ r # post" and best: "longestMatch ms = Some r" and
      pre: "\<forall>x\<in>set pre. length (sub_url x) < length (sub_url r)" and
      post: "\<forall>x\<in>set post. length (sub_url x) \<le> length (sub_url r)"
      by blast
    from best obtain rest where sorted: "sort_js compareUrlLength ms = r # rest"
      by (auto simp: longestMatch_def first_js_def split: list.splits)
    have step: "longestMatch (m # ms) =
        Some (if length (sub_url r) \<le> length (sub_url m) then m else r)"
      using sorted
      by (simp add: longestMatch_def sort_js_def first_js_def compareUrlLength_def)
    show ?thesis
    proof (cases "length (sub_url r) \<le> length (sub_url m)")
      case True
      have "\<forall>x\<in>set ms. length (sub_url x) \<le> length (sub_url m)"
        using ms pre post True by fastforce
      with step True have
        "m # ms = [] @ m # ms \<and> longestMatch (m # ms) = Some m \<and>
         (\<forall>x\<in>set []. length (sub_url x) < length (sub_url m)) \<and>
         (\<forall>x\<in>set ms. length (sub_url x) \<le> length (sub_url m))"
        by simp
      then show ?thesis by blast
    next
      case False
      with step ms pre post have
        "m # ms = (m # pre) @ r # post \<and> longestMatch (m # ms) = Some r \<and>
         (\<forall>x\<in>set (m # pre). length (sub_url x) < length (sub_url r)) \<and>
         (\<forall>x\<in>set post. length (sub_url x) \<le> length (sub_url r))"
        by simp
      then show ?thesis by blast
    qed
  qed
qed

text \<open>
  In \<^verbatim>\<open>render\<close> the guard around the computation of \<^verbatim>\<open>longestMatch\<close> never hides
  a match: an item with a \<^verbatim>\<open>url\<close> is shown expanded as soon as one sub-item
  matches, so the guarded value is that of \<open>selectBestMatch\<close> on the sub-items. An
  item without \<^verbatim>\<open>url\<close> renders no sub-navigation at all.
\<close>

lemma render_longestMatch_eq:
  "url props \<noteq> None \<Longrightarrow>
   render_longestMatch props expanded location =
     selectBestMatch (case subNavItems props of None \<Rightarrow> [] | Some items \<Rightarrow> items) location"
  by (auto simp: render_longestMatch_def selectBestMatch_def Let_def longestMatch_Nil
        matchingSubNavItems_def split: option.splits)

lemma render_longestMatch_no_url:
  "url props = None \<Longrightarrow> render_longestMatch props expanded location = None"
  by (simp add: render_longestMatch_def)

lemma some_opt_startsWithAny:
  "some_opt paths (\<lambda>path. safeStartsWith location path) = startsWithAny location paths"
  by (auto simp: some_opt_def startsWithAny_def paths_of_def safeStartsWith_def startsWith_def
        list_ex_iff split: option.splits)

subsection \<open>Suffixes of the location\<close>

text \<open>
  The location enters the classification only through its normalisation, and the
  normalisation forgets everything from the first \<^verbatim>\<open>?\<close> or \<^verbatim>\<open>#\<close> on, and
  whether a path that does not end with \<^verbatim>\<open>/\<close> is given one.
\<close>

lemma split0_append_sep: "split0 (p @ sep # q) sep = split0 p sep"
  by (induction p) auto

lemma split0_append_other:
  "split0 (split0 (p @ b # q) a) b = split0 (split0 p a) b"
  by (induction p) (auto simp: split0_append_sep [of "[]", simplified])

lemma normalizePathname_query:
  "normalizePathname (p @ cu CHR ''?'' # q) = normalizePathname p"
  by (simp add: normalizePathname_def split0_append_sep)

lemma normalizePathname_fragment:
  "normalizePathname (p @ cu CHR ''#'' # q) = normalizePathname p"
  by (simp add: normalizePathname_def split0_append_other)

lemma split0_append_slash:
  "c \<noteq> sep \<Longrightarrow> split0 (p @ [c]) sep = (if sep \<in> set p then split0 p sep else p @ [c])"
  by (induction p) auto

lemma normalizePathname_slash:
  assumes "\<not> endsWith p (js ''/'')"
  shows "normalizePathname (p @ js ''/'') = normalizePathname p"
proof (cases "cu CHR ''?'' \<in> set p")
  case True
  then show ?thesis
    using cu_neq by (simp add: normalizePathname_def js_def split0_append_slash)
next
  case noq: False
  show ?thesis
  proof (cases "cu CHR ''#'' \<in> set p")
    case True
    then show ?thesis
      using cu_neq noq by (simp add: normalizePathname_def js_def split0_append_slash split0_id)
  next
    case False
    then show ?thesis
      using cu_neq noq assms
      by (simp add: normalizePathname_def js_def split0_append_slash split0_id endsWith_def)
  qed
qed

lemma matchStateForItem_normalized:
  assumes "normalizePathname l1 = normalizePathname l2"
  shows "matchStateForItem rule l1 = matchStateForItem rule l2"
proof -
  have "safeStartsWith l1 = safeStartsWith l2"
    using assms by (intro ext) (simp add: safeStartsWith_def)
  moreover have "safeEqual l1 = safeEqual l2"
    using assms by (intro ext) (simp add: safeEqual_def)
  ultimately show ?thesis
    by (simp add: matchStateForItem_def split: option.splits)
qed

text \<open>
  Only one trailing \<^verbatim>\<open>/\<close> is absorbed: \<^verbatim>\<open>/foo//\<close> is normalised to itself and
  is not \<^verbatim>\<open>/foo/\<close>.
\<close>

lemma second_trailing_slash_counts:
  "matchStateForItem \<lparr>url = Some (js ''/foo''), matches = None, exactMatch = Some True,
      matchPaths = None, excludePaths = None\<rparr> (js ''/foo//'') = NoMatch"
  by code_simp

section \<open>The claims of the specification\<close>

subsection \<open>C1: a forced match\<close>

text \<open>
  C1 (as the code has it). For every rule whose \<^verbatim>\<open>matches\<close> field (the
  specification's \<^verbatim>\<open>forcedMatch\<close>) is \<^verbatim>\<open>true\<close> and every location, the
  classification is \<^verbatim>\<open>MatchForced\<close> when the rule has a \<^verbatim>\<open>url\<close>, whatever the
  content of \<^verbatim>\<open>url\<close>, \<^verbatim>\<open>matchPaths\<close> and \<^verbatim>\<open>excludePaths\<close>, and \<^verbatim>\<open>NoMatch\<close> when
  the \<^verbatim>\<open>url\<close> is absent.
\<close>

theorem forced_true_with_url:
  "matches rule = Some True \<Longrightarrow>
   matchStateForItem rule location = (if url rule = None then NoMatch else MatchForced)"
  by (simp add: matchStateForItem_def split: option.splits)

theorem forced_true_with_url_witness:
  "matches \<lparr>url = Some (js ''/foo''), matches = Some True, exactMatch = Some True,
      matchPaths = Some [js ''/a''], excludePaths = Some [js ''/bar'']\<rparr> = Some True \<and>
   matchStateForItem \<lparr>url = Some (js ''/foo''), matches = Some True, exactMatch = Some True,
      matchPaths = Some [js ''/a''], excludePaths = Some [js ''/bar'']\<rparr> (js ''/bar/baz'')
   = MatchForced"
  using forced_true_with_url [of "\<lparr>url = Some (js ''/foo''), matches = Some True,
      exactMatch = Some True, matchPaths = Some [js ''/a''],
      excludePaths = Some [js ''/bar'']\<rparr>" "js ''/bar/baz''"]
  by simp

text \<open>
  C1 as stated, for all rules with \<^verbatim>\<open>forcedMatch === true\<close>, fails for a rule
  without \<^verbatim>\<open>url\<close>: the test \<^verbatim>\<open>url == null\<close> comes first.
\<close>

theorem forced_true_absent_url_counterexample:
  "matches \<lparr>url = None, matches = Some True, exactMatch = None, matchPaths = None,
      excludePaths = None\<rparr> = Some True \<and>
   matchStateForItem \<lparr>url = None, matches = Some True, exactMatch = None, matchPaths = None,
      excludePaths = None\<rparr> (js ''/foo'') = NoMatch"
  by (simp add: matchStateForItem_def)

subsection \<open>C2: a forced exclusion\<close>

text \<open>
  C2 (as the code has it). For every rule whose \<^verbatim>\<open>matches\<close> field is \<^verbatim>\<open>false\<close>
  and every location, the classification is \<^verbatim>\<open>Excluded\<close> when the rule has a
  \<^verbatim>\<open>url\<close> and \<^verbatim>\<open>NoMatch\<close> when it has none; it is never one of the three match
  states.
\<close>

theorem forced_false_excluded:
  "matches rule = Some False \<Longrightarrow>
   matchStateForItem rule location = (if url rule = None then NoMatch else Excluded) \<and>
   matchStateForItem rule location \<notin> {MatchForced, MatchUrl, MatchPaths}"
  by (simp add: matchStateForItem_def split: option.splits)

theorem forced_false_excluded_witness:
  "matches \<lparr>url = Some (js ''/foo''), matches = Some False, exactMatch = None,
      matchPaths = Some [js ''/foo''], excludePaths = None\<rparr> = Some False \<and>
   matchStateForItem \<lparr>url = Some (js ''/foo''), matches = Some False, exactMatch = None,
      matchPaths = Some [js ''/foo''], excludePaths = None\<rparr> (js ''/foo'') = Excluded"
  using forced_false_excluded [of "\<lparr>url = Some (js ''/foo''), matches = Some False,
      exactMatch = None, matchPaths = Some [js ''/foo''], excludePaths = None\<rparr>" "js ''/foo''"]
  by simp

text \<open>
  C2 as stated, "returns \<^verbatim>\<open>Excluded\<close>" for every rule with
  \<^verbatim>\<open>forcedMatch === false\<close>, fails for a rule without \<^verbatim>\<open>url\<close>.
\<close>

theorem forced_false_absent_url_counterexample:
  "matches \<lparr>url = None, matches = Some False, exactMatch = None, matchPaths = None,
      excludePaths = None\<rparr> = Some False \<and>
   matchStateForItem \<lparr>url = None, matches = Some False, exactMatch = None, matchPaths = None,
      excludePaths = None\<rparr> (js ''/foo'') = NoMatch"
  by (simp add: matchStateForItem_def)

subsection \<open>C3: the order of the criteria\<close>

text \<open>
  C3. For every rule and location \<^verbatim>\<open>matchStateForItem\<close> is the first applicable of
  the five steps, in this order: absent \<^verbatim>\<open>url\<close> gives \<^verbatim>\<open>NoMatch\<close>; forced match
  gives \<^verbatim>\<open>MatchForced\<close>; forced exclusion or a normalised prefix among
  \<^verbatim>\<open>excludePaths\<close> gives \<^verbatim>\<open>Excluded\<close>; a normalised prefix among \<^verbatim>\<open>matchPaths\<close>
  gives \<^verbatim>\<open>MatchPaths\<close>; the comparison with \<^verbatim>\<open>url\<close> (normalised equality under
  \<^verbatim>\<open>exactMatch\<close>, normalised prefix otherwise) gives \<^verbatim>\<open>MatchUrl\<close>; otherwise
  \<^verbatim>\<open>NoMatch\<close>.
\<close>

theorem classify_precedence:
  "matchStateForItem rule location = classify_spec rule location"
  by (auto simp: matchStateForItem_def classify_spec_def some_opt_startsWithAny urlMatches_def
        safeEqual_def safeStartsWith_def startsWith_def Let_def split: option.splits)

theorem classify_precedence_witness:
  "matchStateForItem \<lparr>url = Some (js ''/foo''), matches = None, exactMatch = None,
      matchPaths = Some [js ''/bar''], excludePaths = Some [js ''/bar/private'']\<rparr>
      (js ''/bar/public?x=1'') = MatchPaths \<and>
   classify_spec \<lparr>url = Some (js ''/foo''), matches = None, exactMatch = None,
      matchPaths = Some [js ''/bar''], excludePaths = Some [js ''/bar/private'']\<rparr>
      (js ''/bar/public?x=1'') = MatchPaths"
proof -
  let ?rule = "\<lparr>url = Some (js ''/foo''), matches = None, exactMatch = None,
      matchPaths = Some [js ''/bar''], excludePaths = Some [js ''/bar/private'']\<rparr>"
  have "matchStateForItem ?rule (js ''/bar/public?x=1'') = MatchPaths"
    by code_simp
  then show ?thesis
    using classify_precedence [of ?rule "js ''/bar/public?x=1''"] by simp
qed

subsection \<open>C4: the longest matching sub-item\<close>

text \<open>
  C4. \<open>selectBestMatch\<close> (the computation of \<^verbatim>\<open>longestMatch\<close> from the matching
  sub-items) returns nothing for an empty list and when no rule classifies as
  \<^verbatim>\<open>MatchForced\<close>, \<^verbatim>\<open>MatchUrl\<close> or \<^verbatim>\<open>MatchPaths\<close>. Otherwise it returns one of the
  rules so classified, whose \<^verbatim>\<open>url\<close> is at least as long as that of every other
  such rule and strictly longer than that of every such rule before it in the
  input: the first, in input order, of the longest.
\<close>

theorem selectBestMatch_longest_first:
  "selectBestMatch [] location = None \<and>
   (let active = filter (\<lambda>rule. matchStateForItem (details rule) location
                                  \<in> {MatchForced, MatchUrl, MatchPaths}) rules
    in (active = [] \<longrightarrow> selectBestMatch rules location = None) \<and>
       (active \<noteq> [] \<longrightarrow>
          (\<exists>before best after.
              active = before @ best # after \<and>
              selectBestMatch rules location = Some best \<and>
              (\<forall>r \<in> set before. length (sub_url r) < length (sub_url best)) \<and>
              (\<forall>r \<in> set after. length (sub_url r) \<le> length (sub_url best)))))"
proof -
  have active: "filter (\<lambda>rule. matchStateForItem (details rule) location
                                  \<in> {MatchForced, MatchUrl, MatchPaths}) rules
        = matchingSubNavItems rules location"
    by (simp add: matchingSubNavItems_def isMatch_def)
  have none: "selectBestMatch [] location = None"
    by (simp add: selectBestMatch_def matchingSubNavItems_def longestMatch_Nil)
  show ?thesis
    unfolding Let_def active
    using none longestMatch_first_max [of "matchingSubNavItems rules location"]
    by (auto simp: selectBestMatch_def longestMatch_Nil)
qed

text \<open>
  Four sub-items at \<^verbatim>\<open>/a/b/\<close>: \<^verbatim>\<open>/a\<close> matches and is shorter, \<^verbatim>\<open>/a/b\<close> matches,
  \<^verbatim>\<open>/a/c\<close> does not match, \<^verbatim>\<open>/a/d\<close> matches through its \<^verbatim>\<open>matchPaths\<close> and is as
  long as \<^verbatim>\<open>/a/b\<close>. The earlier of the two longest, \<^verbatim>\<open>/a/b\<close>, is returned.
\<close>

theorem selectBestMatch_longest_first_witness:
  "selectBestMatch
     [\<lparr>sub_url = js ''/a'', sub_label = js ''A'', sub_matches = None,
        sub_exactMatch = None, sub_matchPaths = None, sub_excludePaths = None\<rparr>,
      \<lparr>sub_url = js ''/a/b'', sub_label = js ''B'', sub_matches = None,
        sub_exactMatch = None, sub_matchPaths = None, sub_excludePaths = None\<rparr>,
      \<lparr>sub_url = js ''/a/c'', sub_label = js ''C'', sub_matches = None,
        sub_exactMatch = None, sub_matchPaths = None, sub_excludePaths = None\<rparr>,
      \<lparr>sub_url = js ''/a/d'', sub_label = js ''D'', sub_matches = None,
        sub_exactMatch = None, sub_matchPaths = Some [js ''/a''], sub_excludePaths = None\<rparr>]
     (js ''/a/b/'')
   = Some \<lparr>sub_url = js ''/a/b'', sub_label = js ''B'', sub_matches = None,
        sub_exactMatch = None, sub_matchPaths = None, sub_excludePaths = None\<rparr>"
proof -
  let ?a = "\<lparr>sub_url = js ''/a'', sub_label = js ''A'', sub_matches = None,
        sub_exactMatch = None, sub_matchPaths = None, sub_excludePaths = None\<rparr>"
  let ?b = "\<lparr>sub_url = js ''/a/b'', sub_label = js ''B'', sub_matches = None,
        sub_exactMatch = None, sub_matchPaths = None, sub_excludePaths = None\<rparr>"
  let ?c = "\<lparr>sub_url = js ''/a/c'', sub_label = js ''C'', sub_matches = None,
        sub_exactMatch = None, sub_matchPaths = None, sub_excludePaths = None\<rparr>"
  let ?d = "\<lparr>sub_url = js ''/a/d'', sub_label = js ''D'', sub_matches = None,
        sub_exactMatch = None, sub_matchPaths = Some [js ''/a''], sub_excludePaths = None\<rparr>"
  have active: "filter (\<lambda>rule. matchStateForItem (details rule) (js ''/a/b/'')
                    \<in> {MatchForced, MatchUrl, MatchPaths}) [?a, ?b, ?c, ?d] = [?a, ?b, ?d]"
    by code_simp
  have lens: "length (sub_url ?a) = 2" "length (sub_url ?b) = 4" "length (sub_url ?d) = 4"
    by (simp_all add: js_def)
  from selectBestMatch_longest_first [of "js ''/a/b/''" "[?a, ?b, ?c, ?d]"]
  obtain before best after where
    split: "[?a, ?b, ?d] = before @ best # after" and
    best: "selectBestMatch [?a, ?b, ?c, ?d] (js ''/a/b/'') = Some best" and
    before: "\<forall>r \<in> set before. length (sub_url r) < length (sub_url best)" and
    after: "\<forall>r \<in> set after. length (sub_url r) \<le> length (sub_url best)"
    unfolding Let_def active by blast
  from split consider
      "before = []" "best = ?a" "after = [?b, ?d]"
    | "before = [?a]" "best = ?b" "after = [?d]"
    | "before = [?a, ?b]" "best = ?d" "after = []"
    by (auto simp: Cons_eq_append_conv)
  then have "best = ?b"
  proof cases
    case 1
    with after lens show ?thesis by simp
  next
    case 2
    then show ?thesis by simp
  next
    case 3
    with before lens show ?thesis by simp
  qed
  with best show ?thesis by simp
qed

subsection \<open>C5: the active item\<close>

text \<open>
  C5. \<^verbatim>\<open>isNavItemActive\<close> returns \<^verbatim>\<open>true\<close> for an item and a path if and only if
  the item classifies as \<^verbatim>\<open>MatchForced\<close>, \<^verbatim>\<open>MatchUrl\<close> or \<^verbatim>\<open>MatchPaths\<close>, or one of
  its sub-items does; in particular an item that does not match itself is active
  when one of its sub-items matches.
\<close>

theorem isNavItemActive_iff:
  "(isNavItemActive navItem currentPath = Some True \<longleftrightarrow>
      matchStateForItem navItem currentPath \<in> {MatchForced, MatchUrl, MatchPaths} \<or>
      (\<exists>sub \<in> set (case subNavItems navItem of None \<Rightarrow> [] | Some items \<Rightarrow> items).
         matchStateForItem (details sub) currentPath \<in> {MatchForced, MatchUrl, MatchPaths})) \<and>
   (\<forall>items sub. subNavItems navItem = Some items \<and> sub \<in> set items \<and>
        matchStateForItem navItem currentPath \<notin> {MatchForced, MatchUrl, MatchPaths} \<and>
        matchStateForItem (details sub) currentPath \<in> {MatchForced, MatchUrl, MatchPaths}
      \<longrightarrow> isNavItemActive navItem currentPath = Some True)"
  by (cases "subNavItems navItem")
    (auto simp: isNavItemActive_def Let_def isMatch_def matchingSubNavItems_def
       filter_empty_conv)

text \<open>
  A parent \<^verbatim>\<open>/x\<close> with \<^verbatim>\<open>exactMatch\<close> does not match \<^verbatim>\<open>/x/y\<close>; its sub-item
  \<^verbatim>\<open>/x/y\<close> does, and the parent is active.
\<close>

theorem isNavItemActive_iff_witness:
  "matchStateForItem \<lparr>url = Some (js ''/x''), matches = None, exactMatch = Some True,
      matchPaths = None, excludePaths = None, label = js ''X'', selected = None,
      subNavItems = Some [\<lparr>sub_url = js ''/x/y'', sub_label = js ''Y'', sub_matches = None,
        sub_exactMatch = None, sub_matchPaths = None, sub_excludePaths = None\<rparr>]\<rparr>
      (js ''/x/y'') = NoMatch \<and>
   isNavItemActive \<lparr>url = Some (js ''/x''), matches = None, exactMatch = Some True,
      matchPaths = None, excludePaths = None, label = js ''X'', selected = None,
      subNavItems = Some [\<lparr>sub_url = js ''/x/y'', sub_label = js ''Y'', sub_matches = None,
        sub_exactMatch = None, sub_matchPaths = None, sub_excludePaths = None\<rparr>]\<rparr>
      (js ''/x/y'') = Some True"
proof -
  let ?sub = "\<lparr>sub_url = js ''/x/y'', sub_label = js ''Y'', sub_matches = None,
        sub_exactMatch = None, sub_matchPaths = None, sub_excludePaths = None\<rparr>"
  let ?parent = "\<lparr>url = Some (js ''/x''), matches = None, exactMatch = Some True,
      matchPaths = None, excludePaths = None, label = js ''X'', selected = None,
      subNavItems = Some [?sub]\<rparr>"
  have parent: "matchStateForItem ?parent (js ''/x/y'') = NoMatch"
    by code_simp
  have child: "matchStateForItem (details ?sub) (js ''/x/y'') = MatchUrl"
    by code_simp
  show ?thesis
    using parent child isNavItemActive_iff [of ?parent "js ''/x/y''"] by simp
qed

subsection \<open>C6: exclusion before \<^verbatim>\<open>matchPaths\<close>\<close>

text \<open>
  C6 (as the code has it). For every rule that has a \<^verbatim>\<open>url\<close> and is not a forced
  match, if \<^verbatim>\<open>excludePaths\<close> contains a path whose normalisation is a prefix of the
  normalised location, the classification is \<^verbatim>\<open>Excluded\<close>, whatever \<^verbatim>\<open>matchPaths\<close>
  contains.
\<close>

theorem exclude_before_matchPaths:
  assumes "url rule \<noteq> None" and "matches rule \<noteq> Some True"
    and "excludePaths rule = Some excluded" and "path \<in> set excluded"
    and "startsWith (normalizePathname location) (normalizePathname path)"
  shows "matchStateForItem rule location = Excluded"
proof -
  have "some_opt (excludePaths rule) (\<lambda>path. safeStartsWith location path)"
    using assms(3-5) by (auto simp: some_opt_def safeStartsWith_def list_ex_iff)
  then show ?thesis
    using assms(1,2) by (auto simp: matchStateForItem_def)
qed

text \<open>
  The example of the specification, on a rule with a \<^verbatim>\<open>url\<close>: \<^verbatim>\<open>/foo/bar/\<close> starts
  with the excluded \<^verbatim>\<open>/foo/bar\<close> and with the matching \<^verbatim>\<open>/foo\<close>, and is excluded.
\<close>

theorem exclude_before_matchPaths_witness:
  "safeStartsWith (js ''/foo/bar/'') (js ''/foo'') \<and>
   matchStateForItem \<lparr>url = Some (js ''/foo''), matches = None, exactMatch = None,
      matchPaths = Some [js ''/foo''], excludePaths = Some [js ''/foo/bar'']\<rparr>
      (js ''/foo/bar/'') = Excluded"
proof -
  have hit: "startsWith (normalizePathname (js ''/foo/bar/''))
               (normalizePathname (js ''/foo/bar''))"
    by code_simp
  have other: "safeStartsWith (js ''/foo/bar/'') (js ''/foo'')"
    by code_simp
  show ?thesis
    using other
      exclude_before_matchPaths [of "\<lparr>url = Some (js ''/foo''), matches = None,
        exactMatch = None, matchPaths = Some [js ''/foo''],
        excludePaths = Some [js ''/foo/bar'']\<rparr>" "[js ''/foo/bar'']" "js ''/foo/bar''"
        "js ''/foo/bar/''", OF _ _ _ _ hit]
    by simp
qed

text \<open>
  C6 as stated, for every rule whose \<^verbatim>\<open>excludePaths\<close> contains a normalised prefix
  of the location, fails on the rule of the example when it has no \<^verbatim>\<open>url\<close>
  (\<^verbatim>\<open>NoMatch\<close>) and when it is a forced match (\<^verbatim>\<open>MatchForced\<close>).
\<close>

theorem exclude_hit_not_excluded_counterexample:
  "safeStartsWith (js ''/foo/bar/'') (js ''/foo/bar'') \<and>
   matchStateForItem \<lparr>url = None, matches = None, exactMatch = None,
      matchPaths = Some [js ''/foo''], excludePaths = Some [js ''/foo/bar'']\<rparr>
      (js ''/foo/bar/'') = NoMatch \<and>
   matchStateForItem \<lparr>url = Some (js ''/foo''), matches = Some True, exactMatch = None,
      matchPaths = Some [js ''/foo''], excludePaths = Some [js ''/foo/bar'']\<rparr>
      (js ''/foo/bar/'') = MatchForced"
  by code_simp

subsection \<open>C7: prefix and exact comparison\<close>

text \<open>
  C7. At \<^verbatim>\<open>/foo/bar\<close> the rule \<^verbatim>\<open>{url: "/foo", exactMatch: false}\<close> is a
  \<^verbatim>\<open>MatchUrl\<close> and the rule \<^verbatim>\<open>{url: "/foo", exactMatch: true}\<close> a \<^verbatim>\<open>NoMatch\<close>.
  \<^verbatim>\<open>/foo-bar\<close> starts with \<^verbatim>\<open>/foo\<close> as a string, but not after normalisation:
  the rule \<^verbatim>\<open>{url: "/foo"}\<close> is a \<^verbatim>\<open>NoMatch\<close> there.
\<close>

theorem prefix_versus_exact:
  "matchStateForItem \<lparr>url = Some (js ''/foo''), matches = None, exactMatch = Some False,
      matchPaths = None, excludePaths = None\<rparr> (js ''/foo/bar'') = MatchUrl \<and>
   matchStateForItem \<lparr>url = Some (js ''/foo''), matches = None, exactMatch = Some True,
      matchPaths = None, excludePaths = None\<rparr> (js ''/foo/bar'') = NoMatch \<and>
   startsWith (js ''/foo-bar'') (js ''/foo'') \<and>
   \<not> safeStartsWith (js ''/foo-bar'') (js ''/foo'') \<and>
   matchStateForItem \<lparr>url = Some (js ''/foo''), matches = None, exactMatch = None,
      matchPaths = None, excludePaths = None\<rparr> (js ''/foo-bar'') = NoMatch"
  by code_simp

subsection \<open>C8: normalisation is idempotent\<close>

text \<open>
  C8. For every string \<open>p\<close>, normalising the normalisation of \<open>p\<close> gives the
  normalisation of \<open>p\<close>. The normalisation contains neither \<^verbatim>\<open>?\<close> nor \<^verbatim>\<open>#\<close>, ends
  with \<^verbatim>\<open>/\<close>, and is the part of \<open>p\<close> before the first \<^verbatim>\<open>?\<close> or \<^verbatim>\<open>#\<close>, with a
  \<^verbatim>\<open>/\<close> appended unless that part ends with one.
\<close>

theorem normalizePathname_idempotent:
  "normalizePathname (normalizePathname p) = normalizePathname p \<and>
   cu CHR ''?'' \<notin> set (normalizePathname p) \<and>
   cu CHR ''#'' \<notin> set (normalizePathname p) \<and>
   endsWith (normalizePathname p) (js ''/'') \<and>
   normalizePathname p =
     (let bare = takeWhile (\<lambda>c. c \<noteq> cu CHR ''?'' \<and> c \<noteq> cu CHR ''#'') p
      in if endsWith bare (js ''/'') then bare else bare @ js ''/'')"
proof (intro conjI)
  show "normalizePathname (normalizePathname p) = normalizePathname p"
    by (rule normalizePathname_idem)
  show "cu CHR ''?'' \<notin> set (normalizePathname p)"
    by (rule normalizePathname_free)
  show "cu CHR ''#'' \<notin> set (normalizePathname p)"
    by (rule normalizePathname_free)
  show "endsWith (normalizePathname p) (js ''/'')"
    by (rule normalizePathname_ends)
  show "normalizePathname p =
     (let bare = takeWhile (\<lambda>c. c \<noteq> cu CHR ''?'' \<and> c \<noteq> cu CHR ''#'') p
      in if endsWith bare (js ''/'') then bare else bare @ js ''/'')"
    by (simp only: normalizePathname_def split0_twice_takeWhile)
qed

subsection \<open>C9: trailing slash, query and fragment\<close>

text \<open>
  C9. The classification of a rule does not change when a query (\<^verbatim>\<open>?\<close> and
  anything after it) or a fragment (\<^verbatim>\<open>#\<close> and anything after it) is appended to
  the location, nor when a \<^verbatim>\<open>/\<close> is appended to a location that does not end with
  one. In particular the rule \<^verbatim>\<open>{url: "/foo", exactMatch: true}\<close> is a \<^verbatim>\<open>MatchUrl\<close>
  at \<^verbatim>\<open>/foo\<close> and at \<^verbatim>\<open>/foo/\<close>, and the rule \<^verbatim>\<open>{url: "/foo"}\<close> is a
  \<^verbatim>\<open>MatchUrl\<close> at \<^verbatim>\<open>/foo?tab=1\<close>.
\<close>

theorem location_suffix_insensitive:
  "matchStateForItem rule (p @ cu CHR ''?'' # q) = matchStateForItem rule p \<and>
   matchStateForItem rule (p @ cu CHR ''#'' # q) = matchStateForItem rule p \<and>
   (\<not> endsWith p (js ''/'') \<longrightarrow>
      matchStateForItem rule (p @ js ''/'') = matchStateForItem rule p) \<and>
   matchStateForItem \<lparr>url = Some (js ''/foo''), matches = None, exactMatch = Some True,
      matchPaths = None, excludePaths = None\<rparr> (js ''/foo'') = MatchUrl \<and>
   matchStateForItem \<lparr>url = Some (js ''/foo''), matches = None, exactMatch = Some True,
      matchPaths = None, excludePaths = None\<rparr> (js ''/foo/'') = MatchUrl \<and>
   matchStateForItem \<lparr>url = Some (js ''/foo''), matches = None, exactMatch = None,
      matchPaths = None, excludePaths = None\<rparr> (js ''/foo?tab=1'') = MatchUrl"
proof (intro conjI impI)
  show "matchStateForItem rule (p @ cu CHR ''?'' # q) = matchStateForItem rule p"
    by (rule matchStateForItem_normalized) (rule normalizePathname_query)
  show "matchStateForItem rule (p @ cu CHR ''#'' # q) = matchStateForItem rule p"
    by (rule matchStateForItem_normalized) (rule normalizePathname_fragment)
  show "matchStateForItem rule (p @ js ''/'') = matchStateForItem rule p"
    if "\<not> endsWith p (js ''/'')"
    using that by (intro matchStateForItem_normalized normalizePathname_slash)
  show "matchStateForItem \<lparr>url = Some (js ''/foo''), matches = None, exactMatch = Some True,
      matchPaths = None, excludePaths = None\<rparr> (js ''/foo'') = MatchUrl"
    by code_simp
  show "matchStateForItem \<lparr>url = Some (js ''/foo''), matches = None, exactMatch = Some True,
      matchPaths = None, excludePaths = None\<rparr> (js ''/foo/'') = MatchUrl"
    by code_simp
  show "matchStateForItem \<lparr>url = Some (js ''/foo''), matches = None, exactMatch = None,
      matchPaths = None, excludePaths = None\<rparr> (js ''/foo?tab=1'') = MatchUrl"
    by code_simp
qed

text \<open>
  The rule \<^verbatim>\<open>{url: "/foo", exactMatch: true}\<close> at \<^verbatim>\<open>/foo/\<close>, \<^verbatim>\<open>/foo#top\<close> and
  \<^verbatim>\<open>/foo?tab=1#top\<close>, each obtained from \<^verbatim>\<open>/foo\<close>.
\<close>

theorem location_suffix_insensitive_witness:
  "\<not> endsWith (js ''/foo'') (js ''/'') \<and>
   matchStateForItem \<lparr>url = Some (js ''/foo''), matches = None, exactMatch = Some True,
      matchPaths = None, excludePaths = None\<rparr> (js ''/foo'' @ js ''/'') = MatchUrl \<and>
   matchStateForItem \<lparr>url = Some (js ''/foo''), matches = None, exactMatch = Some True,
      matchPaths = None, excludePaths = None\<rparr> (js ''/foo'' @ cu CHR ''#'' # js ''top'')
     = MatchUrl \<and>
   matchStateForItem \<lparr>url = Some (js ''/foo''), matches = None, exactMatch = Some True,
      matchPaths = None, excludePaths = None\<rparr> (js ''/foo'' @ cu CHR ''?'' # js ''tab=1#top'')
     = MatchUrl"
proof -
  let ?rule = "\<lparr>url = Some (js ''/foo''), matches = None, exactMatch = Some True,
      matchPaths = None, excludePaths = None\<rparr>"
  have bare: "\<not> endsWith (js ''/foo'') (js ''/'')"
    by code_simp
  have q: "matchStateForItem ?rule (js ''/foo'' @ cu CHR ''?'' # js ''tab=1#top'')
             = matchStateForItem ?rule (js ''/foo'')"
    using location_suffix_insensitive [of ?rule "js ''/foo''" "js ''tab=1#top''"] by blast
  have f: "matchStateForItem ?rule (js ''/foo'' @ cu CHR ''#'' # js ''top'')
             = matchStateForItem ?rule (js ''/foo'')"
    using location_suffix_insensitive [of ?rule "js ''/foo''" "js ''top''"] by blast
  have s: "matchStateForItem ?rule (js ''/foo'' @ js ''/'') = matchStateForItem ?rule (js ''/foo'')"
    using bare location_suffix_insensitive [of ?rule "js ''/foo''" "[]"] by blast
  have base: "matchStateForItem ?rule (js ''/foo'') = MatchUrl"
    using location_suffix_insensitive [of ?rule "[]" "[]"] by blast
  show ?thesis
    using bare q f s base by simp
qed

subsection \<open>C10: the empty \<^verbatim>\<open>url\<close>\<close>

text \<open>
  C10. The normalisation of the empty string is \<^verbatim>\<open>/\<close>, and a rule whose \<^verbatim>\<open>url\<close>
  is the empty string, with \<^verbatim>\<open>matches\<close>, \<^verbatim>\<open>exactMatch\<close>, \<^verbatim>\<open>matchPaths\<close> and
  \<^verbatim>\<open>excludePaths\<close> absent, is a \<^verbatim>\<open>MatchUrl\<close> at every location whose normalisation
  begins with \<^verbatim>\<open>/\<close>.
\<close>

theorem empty_url_matches_everything:
  assumes "url rule = Some []" and "matches rule = None" and "exactMatch rule = None"
    and "matchPaths rule = None" and "excludePaths rule = None"
    and "startsWith (normalizePathname location) (js ''/'')"
  shows "normalizePathname [] = js ''/'' \<and> matchStateForItem rule location = MatchUrl"
proof -
  have "normalizePathname [] = js ''/''"
    by (simp add: normalizePathname_def js_def endsWith_def)
  then show ?thesis
    using assms by (simp add: matchStateForItem_def some_opt_def safeStartsWith_def)
qed

theorem empty_url_matches_everything_witness:
  "startsWith (normalizePathname (js ''/orders/42?tab=1'')) (js ''/'') \<and>
   matchStateForItem \<lparr>url = Some [], matches = None, exactMatch = None,
      matchPaths = None, excludePaths = None\<rparr> (js ''/orders/42?tab=1'') = MatchUrl"
proof -
  have begins: "startsWith (normalizePathname (js ''/orders/42?tab=1'')) (js ''/'')"
    by code_simp
  show ?thesis
    using begins
      empty_url_matches_everything [of "\<lparr>url = Some [], matches = None,
        exactMatch = None, matchPaths = None, excludePaths = None\<rparr>" "js ''/orders/42?tab=1''",
        OF _ _ _ _ _ begins]
    by simp
qed

end
